theory Spec2Isabelle
  imports Main "HOL-Library.Sublist" "HOL-Library.Word"
begin

unbundle bit_operations_syntax

section \<open>HTTP header collections\<close>

text \<open>
  Go's \<open>http.Header\<close> is \<open>map[string][]string\<close>: a finite map from header names to the
  ordered sequence of their values. The map itself is indexed by the exact key string;
  the methods \<open>Add\<close>, \<open>Set\<close> and \<open>Del\<close> first bring their key argument into canonical
  MIME form (\<open>textproto.CanonicalMIMEHeaderKey\<close>), a plain index expression
  \<open>header["..."]\<close> does not.
\<close>

type_synonym Header = "string \<rightharpoonup> string list"

definition values_of :: "Header \<Rightarrow> string \<Rightarrow> string list" where
  \<comment> \<open>\<open>h[key]\<close> read as a slice: a missing key reads as the nil (empty) slice.\<close>
  "values_of h key = (case h key of None \<Rightarrow> [] | Some vs \<Rightarrow> vs)"

definition is_lower :: "char \<Rightarrow> bool" where
  \<comment> \<open>\<open>'a' <= c && c <= 'z'\<close>\<close>
  "is_lower c = (97 \<le> (of_char c :: nat) \<and> (of_char c :: nat) \<le> 122)"

definition is_upper :: "char \<Rightarrow> bool" where
  \<comment> \<open>\<open>'A' <= c && c <= 'Z'\<close>\<close>
  "is_upper c = (65 \<le> (of_char c :: nat) \<and> (of_char c :: nat) \<le> 90)"

definition is_digit :: "char \<Rightarrow> bool" where
  "is_digit c = (48 \<le> (of_char c :: nat) \<and> (of_char c :: nat) \<le> 57)"

definition toLower :: nat where
  \<comment> \<open>\<open>const toLower = 'a' - 'A'\<close>\<close>
  "toLower = 32"

definition validHeaderFieldByte :: "char \<Rightarrow> bool" where
  \<comment> \<open>The token characters of RFC 7230: digits, letters and
      \<open>! # $ % & ' * + - . ^ _ ` | ~\<close>.\<close>
  "validHeaderFieldByte c =
     (is_digit c \<or> is_lower c \<or> is_upper c \<or>
      (of_char c :: nat) \<in> {33, 35, 36, 37, 38, 39, 42, 43, 45, 46, 94, 95, 96, 124, 126})"

definition canonical_byte :: "bool \<Rightarrow> char \<Rightarrow> char" where
  \<comment> \<open>One round of the loop of \<open>canonicalMIMEHeaderKey\<close>: upper case at the start and
      after a dash, lower case elsewhere.\<close>
  "canonical_byte upper c =
     (if upper \<and> is_lower c then char_of ((of_char c :: nat) - toLower)
      else if \<not> upper \<and> is_upper c then char_of ((of_char c :: nat) + toLower)
      else c)"

fun canonical_loop :: "bool \<Rightarrow> string \<Rightarrow> string" where
  "canonical_loop upper [] = []"
| "canonical_loop upper (c # cs) =
     (let c' = canonical_byte upper c in c' # canonical_loop (c' = CHR ''-'') cs)"

definition CanonicalMIMEHeaderKey :: "string \<Rightarrow> string" where
  \<comment> \<open>A key holding a byte that is not a token character is returned unchanged.\<close>
  "CanonicalMIMEHeaderKey s =
     (if list_all validHeaderFieldByte s then canonical_loop True s else s)"

definition Header_Add :: "Header \<Rightarrow> string \<Rightarrow> string \<Rightarrow> Header" where
  \<comment> \<open>\<open>h[key] = append(h[key], value)\<close> at the canonical key.\<close>
  "Header_Add h key v =
     (let k = CanonicalMIMEHeaderKey key in h(k \<mapsto> values_of h k @ [v]))"

definition Header_Set :: "Header \<Rightarrow> string \<Rightarrow> string \<Rightarrow> Header" where
  \<comment> \<open>\<open>h[key] = []string{value}\<close> at the canonical key.\<close>
  "Header_Set h key v = h(CanonicalMIMEHeaderKey key \<mapsto> [v])"

definition Header_Del :: "Header \<Rightarrow> string \<Rightarrow> Header" where
  \<comment> \<open>\<open>delete(h, key)\<close> at the canonical key.\<close>
  "Header_Del h key = h(CanonicalMIMEHeaderKey key := None)"

fun Join :: "string list \<Rightarrow> string \<Rightarrow> string" where
  \<comment> \<open>\<open>strings.Join\<close>\<close>
  "Join [] sep = []"
| "Join [x] sep = x"
| "Join (x # y # ys) sep = x @ sep @ Join (y # ys) sep"

subsection \<open>The header functions of the proxy\<close>

definition hopByHopHeaders :: "string list" where
  "hopByHopHeaders =
     [''Proxy-Connection'', ''Keep-Alive'', ''TE'', ''Transfer-Encoding'', ''Upgrade'']"

definition removeHopByHopHeader :: "Header \<Rightarrow> Header" where
  "removeHopByHopHeader header = fold (\<lambda>h hdr. Header_Del hdr h) hopByHopHeaders header"

definition addHost2XForwardHeader :: "Header \<Rightarrow> string \<Rightarrow> Header" where
  "addHost2XForwardHeader header host =
     (let nextValue =
        (case header ''X-Forwarded-For'' of
           Some prior \<Rightarrow> Join prior '', '' @ '', '' @ host
         | None \<Rightarrow> '''')
      in Header_Set header ''X-Forwarded-For'' nextValue)"

definition copyHeader :: "string list \<Rightarrow> Header \<Rightarrow> Header \<Rightarrow> Header" where
  \<comment> \<open>\<open>for k, vv := range src\<close> visits every key of \<open>src\<close> once, in an order the
      runtime chooses; \<open>ks\<close> is that order.\<close>
  "copyHeader ks dst src =
     fold (\<lambda>k d. fold (\<lambda>v d'. Header_Add d' k v) (values_of src k) d) ks dst"

definition range_order :: "Header \<Rightarrow> string list \<Rightarrow> bool" where
  \<comment> \<open>\<open>ks\<close> is a possible order of \<open>range src\<close>: the keys of \<open>src\<close>, each once.\<close>
  "range_order src ks = (distinct ks \<and> set ks = dom src)"


definition ascii_lower :: "char \<Rightarrow> char" where
  "ascii_lower c = (if is_upper c then char_of ((of_char c :: nat) + toLower) else c)"

definition same_name :: "string \<Rightarrow> string \<Rightarrow> bool" where
  \<comment> \<open>Header names compared without regard to case, as HTTP compares them.\<close>
  "same_name a b = (map ascii_lower a = map ascii_lower b)"

definition canonical_keys :: "Header \<Rightarrow> bool" where
  \<comment> \<open>Every key is stored in canonical form, as in every collection that \<open>net/http\<close>
      parsed from the wire or that was filled through \<open>Add\<close> and \<open>Set\<close>.\<close>
  "canonical_keys h = (\<forall>k \<in> dom h. CanonicalMIMEHeaderKey k = k)"



section \<open>IP networks\<close>

text \<open>
  \<open>net.IP\<close> and \<open>net.IPMask\<close> are byte slices; the nil slice is the empty list.
  \<open>To4\<close>, \<open>networkNumberAndMask\<close> and \<open>Contains\<close> follow package \<open>net\<close>.
\<close>

type_synonym byte = "8 word"

record IPNet =
  IP :: "byte list"
  Mask :: "byte list"

definition IPv4len :: nat where "IPv4len = 4"
definition IPv6len :: nat where "IPv6len = 16"

definition To4 :: "byte list \<Rightarrow> byte list" where
  "To4 ip =
     (if length ip = IPv4len then ip
      else if length ip = IPv6len \<and> list_all (\<lambda>b. b = 0) (take 10 ip) \<and>
              ip ! 10 = 0xff \<and> ip ! 11 = 0xff
      then drop 12 ip
      else [])"

definition networkNumberAndMask :: "IPNet \<Rightarrow> byte list \<times> byte list" where
  "networkNumberAndMask n =
     (if To4 (IP n) = [] \<and> length (IP n) \<noteq> IPv6len then ([], [])
      else
        let ip = (if To4 (IP n) = [] then IP n else To4 (IP n)); m = Mask n in
        if length m = IPv4len then (if length ip \<noteq> IPv4len then ([], []) else (ip, m))
        else if length m = IPv6len then (if length ip = IPv4len then (ip, drop 12 m) else (ip, m))
        else ([], []))"

definition Contains :: "IPNet \<Rightarrow> byte list \<Rightarrow> bool" where
  "Contains n ip0 =
     (let (nn, m) = networkNumberAndMask n;
          ip = (if To4 ip0 \<noteq> [] then To4 ip0 else ip0);
          l = length ip
      in if l \<noteq> length nn then False
         else list_all (\<lambda>i. (nn ! i) AND (m ! i) = (ip ! i) AND (m ! i)) [0..<l])"

definition cidr_block :: "IPNet \<Rightarrow> bool" where
  \<comment> \<open>The shape of every network \<open>net.ParseCIDR\<close> returns: a 4-byte address with a
      4-byte mask, or a 16-byte address with a 16-byte mask.\<close>
  "cidr_block n =
     (length (IP n) = IPv4len \<and> length (Mask n) = IPv4len \<or>
      length (IP n) = IPv6len \<and> length (Mask n) = IPv6len)"

record netpkg =
  \<comment> \<open>The parsers of package \<open>net\<close>, taken as given. \<open>ParseIP\<close> returns the nil slice
      for a string that is not an IP address; \<open>ParseCIDR\<close> returns no network for a
      string that is not in CIDR notation.\<close>
  ParseIP :: "string \<Rightarrow> byte list"
  ParseCIDR :: "string \<Rightarrow> IPNet option"

section \<open>Profiles and rule matching\<close>

datatype error =
    ErrNotFoundRule
  | ParseError string string
  | AddrError string string
  | Failure string

fun Error_text :: "error \<Rightarrow> string" where
  \<comment> \<open>\<open>err.Error()\<close>\<close>
  "Error_text ErrNotFoundRule = ''not found rule''"
| "Error_text (ParseError typ text) = ''invalid '' @ typ @ '': '' @ text"
| "Error_text (AddrError why addr) =
     (if addr \<noteq> [] then ''address '' @ addr @ '': '' @ why else why)"
| "Error_text (Failure text) = text"

record Rule =
  Name :: string
  ProxyType :: string
  ProxyIP :: string
  Port :: string
  Patterns :: "string list"

record Profile =
  ServerHost :: string
  ServerPort :: string
  Rules :: "Rule list"

definition GetServerAddr :: "Profile \<Rightarrow> string" where
  "GetServerAddr p = ServerHost p @ '':'' @ ServerPort p"

text \<open>
  The inner loop of \<open>MatchRule\<close> over the patterns of one rule: \<open>Some\<close> is a
  \<open>return\<close> from inside the loop, \<open>None\<close> the loop running to its end. The error of
  \<open>net.ParseCIDR\<close> is its \<open>*net.ParseError\<close> for the text it was given.
\<close>

fun match_patterns :: "netpkg \<Rightarrow> string \<Rightarrow> Rule \<Rightarrow> string list \<Rightarrow> (error + Rule) option" where
  "match_patterns lib path rule [] = None"
| "match_patterns lib path rule (ptn # ptns) =
     (let ip = ParseIP lib path in
      case ParseCIDR lib ptn of
        None \<Rightarrow> Some (Inl (ParseError ''CIDR address'' ptn))
      | Some ipNet \<Rightarrow>
          if Contains ipNet ip then Some (Inr rule)
          else match_patterns lib path rule ptns)"

fun match_rules :: "netpkg \<Rightarrow> string \<Rightarrow> Rule list \<Rightarrow> error + Rule" where
  "match_rules lib path [] = Inl ErrNotFoundRule"
| "match_rules lib path (rule # rules) =
     (case match_patterns lib path rule (Patterns rule) of
        Some r \<Rightarrow> r
      | None \<Rightarrow> match_rules lib path rules)"

definition MatchRule :: "netpkg \<Rightarrow> Profile \<Rightarrow> string \<Rightarrow> error + Rule" where
  "MatchRule lib p path = match_rules lib path (Rules p)"

definition rule_contains :: "netpkg \<Rightarrow> string \<Rightarrow> Rule \<Rightarrow> bool" where
  \<comment> \<open>Some pattern of the rule is a CIDR block that contains the parsed host.\<close>
  "rule_contains lib h rule =
     list_ex (\<lambda>ptn. case ParseCIDR lib ptn of
                       None \<Rightarrow> False
                     | Some n \<Rightarrow> Contains n (ParseIP lib h)) (Patterns rule)"

definition passed_over :: "netpkg \<Rightarrow> string \<Rightarrow> string \<Rightarrow> bool" where
  \<comment> \<open>The pattern parses and its block does not contain the parsed host: the loop
      goes on to the next pattern.\<close>
  "passed_over lib h ptn =
     (case ParseCIDR lib ptn of None \<Rightarrow> False | Some n \<Rightarrow> \<not> Contains n (ParseIP lib h))"

subsection \<open>Sample data\<close>

definition IPv4 :: "byte \<Rightarrow> byte \<Rightarrow> byte \<Rightarrow> byte \<Rightarrow> byte list" where
  \<comment> \<open>\<open>net.IPv4\<close>: the 16-byte form of an IPv4 address.\<close>
  "IPv4 a b c d = [0, 0, 0, 0, 0, 0, 0, 0, 0, 0, 0xff, 0xff, a, b, c, d]"

definition sample_net :: netpkg where
  \<comment> \<open>What \<open>net.ParseIP\<close> and \<open>net.ParseCIDR\<close> return on the strings of the examples.\<close>
  "sample_net =
     \<lparr> ParseIP = (\<lambda>s. if s = ''10.1.2.3'' then IPv4 10 1 2 3
                      else if s = ''8.8.8.8'' then IPv4 8 8 8 8
                      else []),
       ParseCIDR = (\<lambda>s. if s = ''10.0.0.0/8'' then Some \<lparr> IP = [10, 0, 0, 0], Mask = [255, 0, 0, 0] \<rparr>
                        else if s = ''0.0.0.0/0'' then Some \<lparr> IP = [0, 0, 0, 0], Mask = [0, 0, 0, 0] \<rparr>
                        else None) \<rparr>"

definition internal_rule :: Rule where
  "internal_rule =
     \<lparr> Name = ''internal'', ProxyType = ''socks5'', ProxyIP = ''127.0.0.1'', Port = ''1080'',
       Patterns = [''10.0.0.0/8''] \<rparr>"

definition catch_all_rule :: Rule where
  "catch_all_rule =
     \<lparr> Name = ''all'', ProxyType = ''socks5'', ProxyIP = ''127.0.0.1'', Port = ''1081'',
       Patterns = [''0.0.0.0/0''] \<rparr>"

definition broken_rule :: Rule where
  "broken_rule =
     \<lparr> Name = ''broken'', ProxyType = ''socks5'', ProxyIP = ''127.0.0.1'', Port = ''1082'',
       Patterns = [''10.0.0.0/8'', ''not-a-cidr'', ''0.0.0.0/0''] \<rparr>"

definition profile_of :: "Rule list \<Rightarrow> Profile" where
  "profile_of rules = \<lparr> ServerHost = ''127.0.0.1'', ServerPort = ''8080'', Rules = rules \<rparr>"

section \<open>The request handler\<close>

text \<open>
  The handler acts on the outside world: it logs, calls into the libraries, answers the
  client and, in one place, ends the process. Its model returns the sequence of these
  actions in the order the code performs them. What the libraries and the network
  answer is not decided by this program and is a parameter (\<open>world\<close>).
\<close>

record Request =
  Method :: string
  RemoteAddr :: string
  URL_Scheme :: string
  URL_Host :: string
  req_Header :: Header
  RequestURI :: string

record Response =
  StatusCode :: nat
  res_Header :: Header
  res_Body :: string

datatype Dialer = SocksDialer string

datatype Client = Client "Dialer option"
  \<comment> \<open>\<open>http.Client{}\<close> is \<open>Client None\<close>; a client whose transport dials through
      \<open>d\<close> is \<open>Client (Some d)\<close>.\<close>

record world =
  netlib :: netpkg
  SplitHostPort :: "string \<Rightarrow> error + string \<times> string"
  SOCKS5 :: "string \<Rightarrow> error + Dialer"
  Do :: "Client \<Rightarrow> Request \<Rightarrow> error + Response"
  Copy :: "string \<Rightarrow> error option"
  map_range :: "Header \<Rightarrow> string list"

datatype event =
    Logged string
  | Printed string
  | Http_Error string nat
  | Called_SplitHostPort string
  | Called_MatchRule string
  | Called_SOCKS5 string
  | Called_Do Client Request
  | Header_Copied Header
  | WriteHeader nat
  | Called_Copy string
  | Body_Closed
  | Process_Exit nat

definition StatusBadRequest :: nat where "StatusBadRequest = 400"
definition StatusInternalServerError :: nat where "StatusInternalServerError = 500"

text \<open>
  \<open>Logged\<close> carries the message of a logger call, or its format string (less the
  final newline) where the call formats its message (\<open>Printf\<close>, \<open>Debugf\<close>, \<open>Errorf\<close>,
  \<open>Fatalf\<close>); \<open>s.logger.Error\<close> does not format: its message is its arguments printed
  one after the other. \<open>Printed\<close> is \<open>fmt.Printf\<close>. \<open>Http_Error msg code\<close> is
  \<open>http.Error(wr, msg, code)\<close>. \<open>Header_Copied h\<close> is \<open>copyHeader\<close> leaving \<open>h\<close> in
  \<open>wr.Header()\<close>. \<open>log.Fatalf\<close> logs and then calls \<open>os.Exit(1)\<close>: nothing after it
  runs, neither the rest of the handler nor its deferred calls.
\<close>

definition proxyHandler :: "world \<Rightarrow> Profile \<Rightarrow> Header \<Rightarrow> Request \<Rightarrow> event list" where
  \<comment> \<open>\<open>main.go\<close>\<close>
  "proxyHandler w profile wr_Header req =
     [Logged ''remoteAddr: %v, Method: %v, URL: %v''] @
     (if URL_Scheme req \<noteq> ''http'' \<and> URL_Scheme req \<noteq> ''https'' then
        (let msg = ''unsupported protocal scheme '' @ URL_Scheme req
         in [Logged msg, Http_Error msg StatusBadRequest])
      else
        [Called_SplitHostPort (URL_Host req)] @
        (case SplitHostPort w (URL_Host req) of
           Inl err \<Rightarrow>
             [Logged ''failed to splitHostPort: %v'',
              Http_Error ''unexpected error'' StatusInternalServerError]
         | Inr (host, port) \<Rightarrow>
             (let header = addHost2XForwardHeader (removeHopByHopHeader (req_Header req)) host;
                  matched = MatchRule (netlib w) profile host;
                  req' = (if RequestURI req \<noteq> '''' then req\<lparr>req_Header := header, RequestURI := ''''\<rparr>
                          else req\<lparr>req_Header := header\<rparr>);
                  relay = (\<lambda>client.
                    [Called_Do client req'] @
                    (case Do w client req' of
                       Inl err \<Rightarrow>
                         [Logged (''failed to do req: %v'' @ Error_text err),
                          Http_Error ''unexpected error'' StatusInternalServerError]
                     | Inr res \<Rightarrow>
                         (let res_hdr = removeHopByHopHeader (res_Header res)
                          in [Header_Copied (copyHeader (map_range w res_hdr) wr_Header res_hdr),
                              WriteHeader (StatusCode res),
                              Called_Copy (res_Body res)] @
                             (case Copy w (res_Body res) of
                                Some err \<Rightarrow>
                                  [Logged (''failed to copy body: %v'' @ Error_text err),
                                   Http_Error ''unexpected error'' StatusInternalServerError]
                              | None \<Rightarrow> []) @
                             [Body_Closed])))
              in [Called_MatchRule host] @
                 (case matched of
                    Inl err \<Rightarrow>
                      if err \<noteq> ErrNotFoundRule then
                        [Logged ''failed to match rule: %v'',
                         Http_Error ''unexpected error'' StatusInternalServerError]
                      else
                        [Logged ''proxy''] @ relay (Client None)
                  | Inr rule \<Rightarrow>
                      [Called_SOCKS5 (ProxyIP rule @ '':'' @ Port rule)] @
                      (case SOCKS5 w (ProxyIP rule @ '':'' @ Port rule) of
                         Inl err \<Rightarrow>
                           [Logged ''failed to create socksDailer: %v'',
                            Http_Error ''unexpected error'' StatusInternalServerError]
                       | Inr socksDialer \<Rightarrow>
                           [Logged ''proxy''] @
                           relay (Client (Some socksDialer)))))))"

definition proxyHandler_part_001 :: "world \<Rightarrow> Profile \<Rightarrow> Header \<Rightarrow> Request \<Rightarrow> event list" where
  \<comment> \<open>The handler of the second \<open>package main\<close> file, which logs through package \<open>log\<close>.\<close>
  "proxyHandler_part_001 w profile wr_Header req =
     [Logged ''remoteAddr: %v, Method: %v, URL: %v''] @
     (if URL_Scheme req \<noteq> ''http'' \<and> URL_Scheme req \<noteq> ''https'' then
        (let msg = ''unsupported protocal scheme '' @ URL_Scheme req
         in [Http_Error msg StatusBadRequest, Logged msg])
      else
        [Called_SplitHostPort (URL_Host req)] @
        (case SplitHostPort w (URL_Host req) of
           Inl err \<Rightarrow>
             [Logged ''failed to splitHostPort: %v'', Process_Exit 1]
         | Inr (host, port) \<Rightarrow>
             (let header = addHost2XForwardHeader (removeHopByHopHeader (req_Header req)) host;
                  matched = MatchRule (netlib w) profile host;
                  req' = (if RequestURI req \<noteq> '''' then req\<lparr>req_Header := header, RequestURI := ''''\<rparr>
                          else req\<lparr>req_Header := header\<rparr>);
                  relay = (\<lambda>client.
                    [Called_Do client req'] @
                    (case Do w client req' of
                       Inl err \<Rightarrow>
                         [Http_Error ''unexpected error'' StatusInternalServerError]
                     | Inr res \<Rightarrow>
                         (let res_hdr = removeHopByHopHeader (res_Header res)
                          in [Header_Copied (copyHeader (map_range w res_hdr) wr_Header res_hdr),
                              WriteHeader (StatusCode res),
                              Called_Copy (res_Body res)] @
                             (case Copy w (res_Body res) of
                                Some err \<Rightarrow>
                                  [Http_Error ''unexpected error'' StatusInternalServerError]
                              | None \<Rightarrow> []) @
                             [Body_Closed])))
              in [Called_MatchRule host] @
                 (case matched of
                    Inl err \<Rightarrow>
                      if err \<noteq> ErrNotFoundRule then
                        [Http_Error ''unexpected error'' StatusInternalServerError]
                      else
                        relay (Client None)
                  | Inr rule \<Rightarrow>
                      [Printed ''Exec rule name: %v'',
                       Called_SOCKS5 (ProxyIP rule @ '':'' @ Port rule)] @
                      (case SOCKS5 w (ProxyIP rule @ '':'' @ Port rule) of
                         Inl err \<Rightarrow>
                           [Http_Error ''unexpected error'' StatusInternalServerError]
                       | Inr socksDialer \<Rightarrow>
                           relay (Client (Some socksDialer)))))))"

fun pipeline_call :: "event \<Rightarrow> bool" where
  \<comment> \<open>The steps after the scheme check: host extraction, rule matching, the choice of
      transport and the outbound request.\<close>
  "pipeline_call (Called_SplitHostPort a) = True"
| "pipeline_call (Called_MatchRule h) = True"
| "pipeline_call (Called_SOCKS5 a) = True"
| "pipeline_call (Called_Do c r) = True"
| "pipeline_call e = False"

subsection \<open>A sample world and sample requests\<close>

definition sample_world :: world where
  \<comment> \<open>\<open>net.SplitHostPort\<close> on the two authorities of the examples: one with a port,
      one without (``missing port in address''). The upstream answers 200.\<close>
  "sample_world =
     \<lparr> netlib = sample_net,
       SplitHostPort = (\<lambda>s. if s = ''10.1.2.3:80'' then Inr (''10.1.2.3'', ''80'')
                            else Inl (AddrError ''missing port in address'' s)),
       SOCKS5 = (\<lambda>addr. Inr (SocksDialer addr)),
       Do = (\<lambda>client req. Inr \<lparr> StatusCode = 200, res_Header = Map.empty, res_Body = ''ok'' \<rparr>),
       Copy = (\<lambda>body. None),
       map_range = (\<lambda>h. []) \<rparr>"

definition request_to :: "string \<Rightarrow> string \<Rightarrow> Request" where
  "request_to scheme authority =
     \<lparr> Method = ''GET'', RemoteAddr = ''192.0.2.7:50000'', URL_Scheme = scheme,
       URL_Host = authority, req_Header = Map.empty,
       RequestURI = scheme @ ''://'' @ authority @ ''/'' \<rparr>"

section \<open>Properties\<close>

lemma canonical_xff: "CanonicalMIMEHeaderKey ''X-Forwarded-For'' = ''X-Forwarded-For''"
  by code_simp

subsection \<open>Canonical header keys\<close>

lemma canonical_hopByHop:
  "map CanonicalMIMEHeaderKey hopByHopHeaders =
     [''Proxy-Connection'', ''Keep-Alive'', ''Te'', ''Transfer-Encoding'', ''Upgrade'']"
  by code_simp








lemma canonical_hop_same_name:
  "list_all (\<lambda>name. same_name (CanonicalMIMEHeaderKey name) name) hopByHopHeaders"
  by code_simp

subsection \<open>removeHopByHopHeader\<close>

lemma fold_Header_Del:
  "fold (\<lambda>h hdr. Header_Del hdr h) names header k =
     (if k \<in> set (map CanonicalMIMEHeaderKey names) then None else header k)"
  by (induction names arbitrary: header) (auto simp: Header_Del_def)

lemma removeHopByHopHeader_apply:
  "removeHopByHopHeader header k =
     (if k \<in> set (map CanonicalMIMEHeaderKey hopByHopHeaders) then None else header k)"
  unfolding removeHopByHopHeader_def by (rule fold_Header_Del)

lemma removeHopByHopHeader_keys:
  "removeHopByHopHeader header k =
     (if k \<in> {''Proxy-Connection'', ''Keep-Alive'', ''Te'', ''Transfer-Encoding'', ''Upgrade''}
      then None else header k)"
  unfolding removeHopByHopHeader_apply canonical_hopByHop by simp

text \<open>
  The map is indexed by the exact key, and \<open>Del\<close> deletes the entry under the canonical
  form of its argument. An entry that was put into the map by hand under another
  spelling stays: the reason why the keys that spell a hop-by-hop name are required to
  be canonical below.
\<close>

lemma removeHopByHopHeader_exact_key:
  "removeHopByHopHeader [''TE'' \<mapsto> [''trailers'']] ''TE'' = Some [''trailers''] \<and>
   removeHopByHopHeader [''transfer-encoding'' \<mapsto> [''chunked'']] ''transfer-encoding''
     = Some [''chunked'']"
  by (simp add: removeHopByHopHeader_keys)











subsection \<open>addHost2XForwardHeader\<close>

lemma addHost2XForwardHeader_absent:
  "header ''X-Forwarded-For'' = None \<Longrightarrow>
   addHost2XForwardHeader header host = header(''X-Forwarded-For'' \<mapsto> [''''])"
  by (simp add: addHost2XForwardHeader_def Header_Set_def canonical_xff)

lemma addHost2XForwardHeader_present:
  "header ''X-Forwarded-For'' = Some prior \<Longrightarrow>
   addHost2XForwardHeader header host =
     header(''X-Forwarded-For'' \<mapsto> [Join prior '', '' @ '', '' @ host])"
  by (simp add: addHost2XForwardHeader_def Header_Set_def canonical_xff)

text \<open>
  C2 does not hold of the code. With no X-Forwarded-For entry the \<open>if\<close> is not taken,
  \<open>nextValue\<close> is still the empty string it was declared with, and \<open>Set\<close> stores that:
  the header ends with the single value \<open>""\<close>, not the client host. Here for the
  empty collection and the host 10.1.2.3.
\<close>

theorem addHost2XForwardHeader_absent_stores_empty:
  "addHost2XForwardHeader Map.empty ''10.1.2.3'' ''X-Forwarded-For'' = Some [''''] \<and>
   addHost2XForwardHeader Map.empty ''10.1.2.3'' ''X-Forwarded-For'' \<noteq> Some [''10.1.2.3'']"
  by (simp add: addHost2XForwardHeader_absent)

text \<open>
  C7: when the collection has X-Forwarded-For values \<open>prior\<close> (one or more), the call
  leaves the comma-joined chain of \<open>prior\<close>, unchanged, followed by \<open>", "\<close> and the
  client host; every other header is as before. A chain held in one value \<open>chain\<close>
  becomes \<open>chain, host\<close>.
\<close>

theorem addHost2XForwardHeader_appends:
  assumes "header ''X-Forwarded-For'' = Some prior" and "prior \<noteq> []"
  shows "addHost2XForwardHeader header host =
           header(''X-Forwarded-For'' \<mapsto> [Join prior '', '' @ '', '' @ host]) \<and>
         prefix (Join prior '', '') (hd (values_of (addHost2XForwardHeader header host) ''X-Forwarded-For'')) \<and>
         suffix ('', '' @ host) (hd (values_of (addHost2XForwardHeader header host) ''X-Forwarded-For'')) \<and>
         (\<forall>chain. prior = [chain] \<longrightarrow>
            addHost2XForwardHeader header host ''X-Forwarded-For'' = Some [chain @ '', '' @ host])"
  using assms(1)
  by (auto simp: addHost2XForwardHeader_present values_of_def suffix_def)

theorem addHost2XForwardHeader_appends_witness:
  "addHost2XForwardHeader [''X-Forwarded-For'' \<mapsto> [''a, b''], ''Accept'' \<mapsto> [''*/*'']] ''c''
     = [''X-Forwarded-For'' \<mapsto> [''a, b, c''], ''Accept'' \<mapsto> [''*/*'']]"
proof -
  have h: "[''X-Forwarded-For'' \<mapsto> [''a, b''], ''Accept'' \<mapsto> [''*/*'']] ''X-Forwarded-For''
             = Some [''a, b'']"
    by simp
  have ne: "[''a, b''] \<noteq> []" by simp
  have "addHost2XForwardHeader [''X-Forwarded-For'' \<mapsto> [''a, b''], ''Accept'' \<mapsto> [''*/*'']] ''c''
          = [''X-Forwarded-For'' \<mapsto> [''a, b''], ''Accept'' \<mapsto> [''*/*'']]
              (''X-Forwarded-For'' \<mapsto> [Join [''a, b''] '', '' @ '', '' @ ''c''])"
    using addHost2XForwardHeader_appends
            [of "[''X-Forwarded-For'' \<mapsto> [''a, b''], ''Accept'' \<mapsto> [''*/*'']]" "[''a, b'']" "''c''",
             OF h ne]
    by blast
  also have "\<dots> = [''X-Forwarded-For'' \<mapsto> [''a, b, c''], ''Accept'' \<mapsto> [''*/*'']]"
    by (rule ext) simp
  finally show ?thesis .
qed

lemma Join_foldl: "Join (v # vs) sep = foldl (\<lambda>acc x. acc @ sep @ x) v vs"
proof (induction vs arbitrary: v)
  case Nil
  show ?case by simp
next
  case (Cons w ws)
  have "Join (v # w # ws) sep = v @ sep @ Join (w # ws) sep" by simp
  also have "\<dots> = v @ sep @ foldl (\<lambda>acc x. acc @ sep @ x) w ws"
    by (simp only: Cons.IH)
  also have "\<dots> = foldl (\<lambda>acc x. acc @ sep @ x) (v @ sep @ w) ws"
  proof (induction ws arbitrary: w)
    case Nil
    show ?case by simp
  next
    case (Cons a as)
    show ?case using Cons.IH[of "w @ sep @ a"] by simp
  qed
  finally show ?case by simp
qed

text \<open>
  C10: when X-Forwarded-For holds the separate values \<open>v, vs\<close> (several header lines),
  the call replaces them by exactly one value: \<open>v\<close>, then each further prior value in
  order, then the client host, each preceded by \<open>", "\<close>.
\<close>

theorem addHost2XForwardHeader_collapses:
  "addHost2XForwardHeader (header(''X-Forwarded-For'' \<mapsto> v # vs)) host ''X-Forwarded-For''
     = Some [foldl (\<lambda>acc x. acc @ '', '' @ x) v (vs @ [host])] \<and>
   length (values_of (addHost2XForwardHeader (header(''X-Forwarded-For'' \<mapsto> v # vs)) host)
             ''X-Forwarded-For'') = 1"
  by (simp add: addHost2XForwardHeader_present[where prior = "v # vs"] Join_foldl values_of_def)

theorem addHost2XForwardHeader_collapses_witness:
  "addHost2XForwardHeader [''X-Forwarded-For'' \<mapsto> [''a'', ''b'']] ''c'' ''X-Forwarded-For''
     = Some [''a, b, c'']"
  using addHost2XForwardHeader_collapses[of Map.empty "''a''" "[''b'']" "''c''"]
  by simp

subsection \<open>copyHeader\<close>

lemma Header_Add_apply:
  "Header_Add h key v k =
     (if CanonicalMIMEHeaderKey key = k then Some (values_of h k @ [v]) else h k)"
  by (auto simp: Header_Add_def Let_def)

lemma fold_Header_Add_apply:
  "fold (\<lambda>v d'. Header_Add d' key v) vv d k =
     (if CanonicalMIMEHeaderKey key = k \<and> vv \<noteq> [] then Some (values_of d k @ vv) else d k)"
proof (induction vv arbitrary: d)
  case Nil
  show ?case by simp
next
  case (Cons v vv)
  have "fold (\<lambda>v d'. Header_Add d' key v) (v # vv) d k =
        fold (\<lambda>v d'. Header_Add d' key v) vv (Header_Add d key v) k"
    by simp
  also have "\<dots> =
      (if CanonicalMIMEHeaderKey key = k \<and> vv \<noteq> []
       then Some (values_of (Header_Add d key v) k @ vv) else Header_Add d key v k)"
    by (rule Cons.IH)
  also have "\<dots> =
      (if CanonicalMIMEHeaderKey key = k \<and> v # vv \<noteq> []
       then Some (values_of d k @ v # vv) else d k)"
    by (simp add: values_of_def Header_Add_apply)
  finally show ?case .
qed

text \<open>
  What \<open>copyHeader\<close> leaves under a key: the values \<open>dst\<close> had, then the values of
  every key of \<open>src\<close> with that canonical form, in the order \<open>range\<close> visited them.
\<close>

lemma values_of_fold_Header_Add:
  "values_of (fold (\<lambda>v d'. Header_Add d' key v) vv d) k =
     values_of d k @ (if CanonicalMIMEHeaderKey key = k then vv else [])"
  by (simp add: values_of_def[of "fold (\<lambda>v d'. Header_Add d' key v) vv d"]
        fold_Header_Add_apply)
     (simp add: values_of_def)

lemma copyHeader_apply:
  "copyHeader ks dst src k =
     (let new = concat (map (values_of src) (filter (\<lambda>k'. CanonicalMIMEHeaderKey k' = k) ks))
      in if new = [] then dst k else Some (values_of dst k @ new))"
proof (induction ks arbitrary: dst)
  case Nil
  show ?case by (simp add: copyHeader_def)
next
  case (Cons a ks)
  define vv where "vv = values_of src a"
  define d where "d = fold (\<lambda>v d'. Header_Add d' a v) vv dst"
  define rest where
    "rest = concat (map (values_of src) (filter (\<lambda>k'. CanonicalMIMEHeaderKey k' = k) ks))"
  have step: "copyHeader (a # ks) dst src k = copyHeader ks d src k"
    by (simp add: copyHeader_def d_def vv_def)
  have ih: "copyHeader ks d src k = (if rest = [] then d k else Some (values_of d k @ rest))"
    unfolding rest_def using Cons.IH[of d] unfolding Let_def .
  have dk: "d k = (if CanonicalMIMEHeaderKey a = k \<and> vv \<noteq> []
                   then Some (values_of dst k @ vv) else dst k)"
    unfolding d_def by (rule fold_Header_Add_apply)
  have vdk: "values_of d k = values_of dst k @ (if CanonicalMIMEHeaderKey a = k then vv else [])"
    unfolding d_def by (rule values_of_fold_Header_Add)
  have new: "concat (map (values_of src)
                (filter (\<lambda>k'. CanonicalMIMEHeaderKey k' = k) (a # ks)))
             = (if CanonicalMIMEHeaderKey a = k then vv else []) @ rest"
    by (simp add: rest_def vv_def)
  show ?case
    unfolding step ih new Let_def dk vdk by simp
qed

lemma values_of_copyHeader:
  "values_of (copyHeader ks dst src) k =
     values_of dst k @
     concat (map (values_of src) (filter (\<lambda>k'. CanonicalMIMEHeaderKey k' = k) ks))"
  by (simp add: values_of_def[of "copyHeader ks dst src"] copyHeader_apply Let_def)
     (simp add: values_of_def)

lemma subseq_concat_member: "x \<in> set xs \<Longrightarrow> subseq (f x) (concat (map f xs))"
proof (induction xs)
  case Nil
  then show ?case by simp
next
  case (Cons y ys)
  show ?case
  proof (cases "x = y")
    case True
    then show ?thesis by (simp add: prefix_imp_subseq)
  next
    case False
    with Cons have "subseq (f x) (concat (map f ys))" by simp
    then show ?thesis by (simp add: list_emb_append2)
  qed
qed

lemma filter_eq_distinct:
  "distinct ks \<Longrightarrow> filter (\<lambda>k'. k' = k) ks = (if k \<in> set ks then [k] else [])"
  by (induction ks) auto

text \<open>
  C8: whatever order \<open>range src\<close> takes, (1) every key of \<open>dst\<close> keeps its values, in
  place and in order, with the new ones after them; (2) the values of every key of
  \<open>src\<close> are all in \<open>dst\<close> afterwards, in their order, under the canonical form of the
  key; (3) when the keys of \<open>src\<close> are canonical, each key of the result holds exactly its
  values in \<open>dst\<close> followed by its values in \<open>src\<close>.
\<close>

theorem copyHeader_additive:
  assumes "range_order src ks"
  shows "(\<forall>k vs. dst k = Some vs \<longrightarrow> (\<exists>ws. copyHeader ks dst src k = Some (vs @ ws))) \<and>
         (\<forall>k vv. src k = Some vv \<longrightarrow>
            subseq vv (values_of (copyHeader ks dst src) (CanonicalMIMEHeaderKey k))) \<and>
         (canonical_keys src \<longrightarrow>
            (\<forall>k. values_of (copyHeader ks dst src) k = values_of dst k @ values_of src k))"
proof (intro conjI allI impI)
  fix k vs
  assume "dst k = Some vs"
  then show "\<exists>ws. copyHeader ks dst src k = Some (vs @ ws)"
    by (auto simp: copyHeader_apply Let_def values_of_def)
next
  fix k vv
  assume kv: "src k = Some vv"
  let ?c = "CanonicalMIMEHeaderKey k"
  from kv assms have "k \<in> set (filter (\<lambda>k'. CanonicalMIMEHeaderKey k' = ?c) ks)"
    by (auto simp: range_order_def)
  then have "subseq (values_of src k)
               (concat (map (values_of src) (filter (\<lambda>k'. CanonicalMIMEHeaderKey k' = ?c) ks)))"
    by (rule subseq_concat_member)
  moreover from kv have "values_of src k = vv" by (simp add: values_of_def)
  ultimately show "subseq vv (values_of (copyHeader ks dst src) ?c)"
    by (simp add: values_of_copyHeader list_emb_append2)
next
  fix k
  assume canon: "canonical_keys src"
  have "filter (\<lambda>k'. CanonicalMIMEHeaderKey k' = k) ks = filter (\<lambda>k'. k' = k) ks"
    using canon assms by (intro filter_cong) (auto simp: canonical_keys_def range_order_def)
  also have "\<dots> = (if k \<in> set ks then [k] else [])"
    using assms by (simp add: filter_eq_distinct range_order_def)
  finally have "concat (map (values_of src) (filter (\<lambda>k'. CanonicalMIMEHeaderKey k' = k) ks))
                  = values_of src k"
    using assms by (auto simp: range_order_def values_of_def split: option.splits)
  then show "values_of (copyHeader ks dst src) k = values_of dst k @ values_of src k"
    by (simp add: values_of_copyHeader)
qed

lemma sample_response_header_canonical:
  "canonical_keys [''Content-Type'' \<mapsto> [''text/html''], ''Set-Cookie'' \<mapsto> [''a=1'', ''b=2'']]"
proof -
  have "CanonicalMIMEHeaderKey ''Content-Type'' = ''Content-Type''"
       "CanonicalMIMEHeaderKey ''Set-Cookie'' = ''Set-Cookie''"
    by code_simp+
  then show ?thesis by (simp add: canonical_keys_def)
qed

theorem copyHeader_additive_witness:
  "values_of
     (copyHeader [''Set-Cookie'', ''Content-Type'']
        [''Set-Cookie'' \<mapsto> [''z=0'']]
        [''Content-Type'' \<mapsto> [''text/html''], ''Set-Cookie'' \<mapsto> [''a=1'', ''b=2'']])
     ''Set-Cookie''
   = [''z=0'', ''a=1'', ''b=2'']"
proof -
  let ?src = "[''Content-Type'' \<mapsto> [''text/html''], ''Set-Cookie'' \<mapsto> [''a=1'', ''b=2'']]"
  let ?dst = "[''Set-Cookie'' \<mapsto> [''z=0'']]"
  let ?ks = "[''Set-Cookie'', ''Content-Type'']"
  have r: "range_order ?src ?ks"
    by (auto simp: range_order_def)
  have "values_of (copyHeader ?ks ?dst ?src) ''Set-Cookie''
          = values_of ?dst ''Set-Cookie'' @ values_of ?src ''Set-Cookie''"
    using copyHeader_additive[OF r, of ?dst] sample_response_header_canonical by blast
  then show ?thesis by (simp add: values_of_def)
qed

subsection \<open>Contains\<close>

lemma To4_nil: "To4 [] = []"
  by (simp add: To4_def IPv4len_def IPv6len_def)

lemma length_To4: "To4 ip \<noteq> [] \<Longrightarrow> length (To4 ip) = IPv4len"
  by (auto simp: To4_def IPv4len_def IPv6len_def split: if_splits)

lemma networkNumber_nonempty:
  assumes "cidr_block n"
  shows "fst (networkNumberAndMask n) \<noteq> []"
proof (cases "length (IP n) = IPv4len")
  case True
  then have "To4 (IP n) = IP n" by (simp add: To4_def)
  with True assms show ?thesis
    by (auto simp: cidr_block_def networkNumberAndMask_def Let_def IPv4len_def IPv6len_def)
next
  case False
  with assms have l: "length (IP n) = IPv6len" "length (Mask n) = IPv6len"
    by (auto simp: cidr_block_def)
  show ?thesis
  proof (cases "To4 (IP n) = []")
    case True
    with l show ?thesis
      by (auto simp: networkNumberAndMask_def Let_def IPv4len_def IPv6len_def)
  next
    case False
    then have "length (To4 (IP n)) = IPv4len" by (rule length_To4)
    with False l show ?thesis
      by (auto simp: networkNumberAndMask_def Let_def IPv4len_def IPv6len_def)
  qed
qed

text \<open>No CIDR block contains the nil address: the lengths differ.\<close>

lemma Contains_nil: "cidr_block n \<Longrightarrow> \<not> Contains n []"
  using networkNumber_nonempty[of n]
  by (auto simp: Contains_def To4_nil split: prod.splits)

subsection \<open>MatchRule\<close>

lemma match_patterns_passed:
  "list_all (passed_over lib h) ptns \<Longrightarrow> match_patterns lib h rule ptns = None"
  by (induction ptns) (auto simp: passed_over_def split: option.splits)

lemma match_patterns_all_parse:
  "list_all (\<lambda>ptn. ParseCIDR lib ptn \<noteq> None) ptns \<Longrightarrow>
   match_patterns lib h rule ptns =
     (if list_ex (\<lambda>ptn. case ParseCIDR lib ptn of None \<Rightarrow> False
                        | Some n \<Rightarrow> Contains n (ParseIP lib h)) ptns
      then Some (Inr rule) else None)"
  by (induction ptns) (auto split: option.splits)

lemma match_rules_all_parse:
  "list_all (\<lambda>rule. list_all (\<lambda>ptn. ParseCIDR lib ptn \<noteq> None) (Patterns rule)) rules \<Longrightarrow>
   match_rules lib h rules =
     (case find (rule_contains lib h) rules of
        Some rule \<Rightarrow> Inr rule
      | None \<Rightarrow> Inl ErrNotFoundRule)"
  by (induction rules) (simp_all add: match_patterns_all_parse rule_contains_def)

lemma match_patterns_reaches:
  "list_all (passed_over lib h) ps1 \<Longrightarrow> ParseCIDR lib ptn = None \<Longrightarrow>
   match_patterns lib h rule (ps1 @ ptn # ps2) = Some (Inl (ParseError ''CIDR address'' ptn))"
  by (induction ps1) (auto simp: passed_over_def split: option.splits)

lemma match_rules_skip:
  "list_all (\<lambda>r. list_all (passed_over lib h) (Patterns r)) rs1 \<Longrightarrow>
   match_rules lib h (rs1 @ rs) = match_rules lib h rs"
  by (induction rs1) (simp_all add: match_patterns_passed)

lemma find_first:
  "\<forall>r \<in> set rs1. \<not> P r \<Longrightarrow> P rule \<Longrightarrow> find P (rs1 @ rule # rs2) = Some rule"
  by (induction rs1) simp_all

lemma find_none: "\<forall>r \<in> set rs. \<not> P r \<Longrightarrow> find P rs = None"
  by (induction rs) simp_all

text \<open>
  C1: when every pattern of the profile parses, \<open>MatchRule\<close> returns the first rule, in
  the order of \<open>Rules\<close>, one of whose patterns is a block containing the parsed host,
  and no error; it returns \<open>ErrNotFoundRule\<close> when no rule has such a pattern. Within
  the first such rule the loop returns at its first containing pattern, and what it
  returns there is that rule.
\<close>

theorem MatchRule_first_match:
  assumes "\<forall>rule \<in> set (Rules p). \<forall>ptn \<in> set (Patterns rule). ParseCIDR lib ptn \<noteq> None"
  shows "MatchRule lib p h =
           (case find (rule_contains lib h) (Rules p) of
              Some rule \<Rightarrow> Inr rule
            | None \<Rightarrow> Inl ErrNotFoundRule) \<and>
         (\<forall>rs1 rule rs2.
            Rules p = rs1 @ rule # rs2 \<and> (\<forall>r \<in> set rs1. \<not> rule_contains lib h r) \<and>
            rule_contains lib h rule \<longrightarrow> MatchRule lib p h = Inr rule) \<and>
         ((\<forall>r \<in> set (Rules p). \<not> rule_contains lib h r) \<longrightarrow>
            MatchRule lib p h = Inl ErrNotFoundRule)"
proof -
  from assms have
    "list_all (\<lambda>rule. list_all (\<lambda>ptn. ParseCIDR lib ptn \<noteq> None) (Patterns rule)) (Rules p)"
    by (simp add: list_all_iff)
  then have eq: "MatchRule lib p h =
      (case find (rule_contains lib h) (Rules p) of
         Some rule \<Rightarrow> Inr rule
       | None \<Rightarrow> Inl ErrNotFoundRule)"
    unfolding MatchRule_def by (rule match_rules_all_parse)
  show ?thesis
  proof (intro conjI allI impI)
    show "MatchRule lib p h =
      (case find (rule_contains lib h) (Rules p) of
         Some rule \<Rightarrow> Inr rule
       | None \<Rightarrow> Inl ErrNotFoundRule)"
      by (rule eq)
  next
    fix rs1 rule rs2
    assume "Rules p = rs1 @ rule # rs2 \<and> (\<forall>r \<in> set rs1. \<not> rule_contains lib h r) \<and>
            rule_contains lib h rule"
    then show "MatchRule lib p h = Inr rule"
      by (simp add: eq find_first)
  next
    assume "\<forall>r \<in> set (Rules p). \<not> rule_contains lib h r"
    then show "MatchRule lib p h = Inl ErrNotFoundRule"
      by (simp add: eq find_none)
  qed
qed

lemma sample_patterns_parse:
  "\<forall>rule \<in> set (Rules (profile_of [internal_rule, catch_all_rule])).
     \<forall>ptn \<in> set (Patterns rule). ParseCIDR sample_net ptn \<noteq> None"
  by (simp add: profile_of_def internal_rule_def catch_all_rule_def sample_net_def)

theorem MatchRule_first_match_witness:
  "MatchRule sample_net (profile_of [internal_rule, catch_all_rule]) ''10.1.2.3''
     = Inr internal_rule \<and>
   MatchRule sample_net (profile_of [internal_rule, catch_all_rule]) ''8.8.8.8''
     = Inr catch_all_rule \<and>
   MatchRule sample_net (profile_of [internal_rule, catch_all_rule]) ''localhost''
     = Inl ErrNotFoundRule"
proof -
  have a: "find (rule_contains sample_net ''10.1.2.3'')
             (Rules (profile_of [internal_rule, catch_all_rule])) = Some internal_rule"
    by code_simp
  have b: "find (rule_contains sample_net ''8.8.8.8'')
             (Rules (profile_of [internal_rule, catch_all_rule])) = Some catch_all_rule"
    by code_simp
  have c: "find (rule_contains sample_net ''localhost'')
             (Rules (profile_of [internal_rule, catch_all_rule])) = None"
    by code_simp
  show ?thesis
    using MatchRule_first_match[OF sample_patterns_parse, of "''10.1.2.3''"]
          MatchRule_first_match[OF sample_patterns_parse, of "''8.8.8.8''"]
          MatchRule_first_match[OF sample_patterns_parse, of "''localhost''"]
    by (simp add: a b c)
qed

text \<open>
  C3: let the loops reach a pattern \<open>ptn\<close> that does not parse, every pattern before it
  (in the rules before, and earlier in its own rule) having parsed without containing
  the host. Then \<open>MatchRule\<close> returns the parse error of \<open>ptn\<close>, which is not
  \<open>ErrNotFoundRule\<close>; and it returns it whatever the later patterns \<open>ps2\<close> and later
  rules \<open>rs2\<close> are, so none of them is consulted.
\<close>

theorem MatchRule_malformed_pattern:
  assumes "Rules p = rs1 @ rule # rs2" and "Patterns rule = ps1 @ ptn # ps2"
    and "\<forall>r \<in> set rs1. \<forall>q \<in> set (Patterns r). passed_over lib h q"
    and "\<forall>q \<in> set ps1. passed_over lib h q"
    and "ParseCIDR lib ptn = None"
  shows "MatchRule lib p h = Inl (ParseError ''CIDR address'' ptn) \<and>
         MatchRule lib p h \<noteq> Inl ErrNotFoundRule \<and>
         (\<forall>ps2' rs2'.
            MatchRule lib (p\<lparr>Rules := rs1 @ rule\<lparr>Patterns := ps1 @ ptn # ps2'\<rparr> # rs2'\<rparr>) h
              = MatchRule lib p h)"
proof -
  have skip: "list_all (\<lambda>r. list_all (passed_over lib h) (Patterns r)) rs1"
    using assms(3) by (simp add: list_all_iff)
  have pre: "list_all (passed_over lib h) ps1"
    using assms(4) by (simp add: list_all_iff)
  have general: "match_rules lib h (rs1 @ r' # rs') = Inl (ParseError ''CIDR address'' ptn)"
    if "Patterns r' = ps1 @ ptn # ps'" for r' rs' ps'
    using that match_patterns_reaches[OF pre assms(5), of r' ps']
    by (simp add: match_rules_skip[OF skip])
  have here: "MatchRule lib p h = Inl (ParseError ''CIDR address'' ptn)"
    unfolding MatchRule_def assms(1) using assms(2) by (rule general)
  have others: "MatchRule lib (p\<lparr>Rules := rs1 @ rule\<lparr>Patterns := ps1 @ ptn # ps2'\<rparr> # rs2'\<rparr>) h
                  = Inl (ParseError ''CIDR address'' ptn)" for ps2' rs2'
    unfolding MatchRule_def by (simp add: general)
  show ?thesis
    by (simp add: here others)
qed

theorem MatchRule_malformed_pattern_witness:
  "MatchRule sample_net (profile_of [internal_rule, broken_rule, catch_all_rule]) ''8.8.8.8''
     = Inl (ParseError ''CIDR address'' ''not-a-cidr'')"
proof -
  let ?p = "profile_of [internal_rule, broken_rule, catch_all_rule]"
  have passed: "passed_over sample_net ''8.8.8.8'' ''10.0.0.0/8''"
    by code_simp
  have 1: "Rules ?p = [internal_rule] @ broken_rule # [catch_all_rule]"
    by (simp add: profile_of_def)
  have 2: "Patterns broken_rule = [''10.0.0.0/8''] @ ''not-a-cidr'' # [''0.0.0.0/0'']"
    by (simp add: broken_rule_def)
  have 3: "\<forall>r \<in> set [internal_rule]. \<forall>q \<in> set (Patterns r). passed_over sample_net ''8.8.8.8'' q"
    using passed by (simp add: internal_rule_def)
  have 4: "\<forall>q \<in> set [''10.0.0.0/8'']. passed_over sample_net ''8.8.8.8'' q"
    using passed by simp
  have 5: "ParseCIDR sample_net ''not-a-cidr'' = None"
    by (simp add: sample_net_def)
  show ?thesis
    using MatchRule_malformed_pattern[OF 1 2 3 4 5] by blast
qed

text \<open>
  C4: when every pattern of the profile parses as a CIDR block and the host does not
  parse as an IP address (\<open>ParseIP\<close> returns nil), every pattern is passed over, the
  block 0.0.0.0/0 included, and \<open>MatchRule\<close> returns \<open>ErrNotFoundRule\<close>.
\<close>

theorem MatchRule_host_not_ip:
  assumes "\<forall>rule \<in> set (Rules p). \<forall>ptn \<in> set (Patterns rule).
             \<exists>n. ParseCIDR lib ptn = Some n \<and> cidr_block n"
    and "ParseIP lib h = []"
  shows "MatchRule lib p h = Inl ErrNotFoundRule \<and>
         (\<forall>rule \<in> set (Rules p). \<forall>ptn \<in> set (Patterns rule). passed_over lib h ptn)"
proof -
  have passed: "passed_over lib h ptn"
    if "rule \<in> set (Rules p)" "ptn \<in> set (Patterns rule)" for rule ptn
  proof -
    from assms(1) that obtain n where n: "ParseCIDR lib ptn = Some n" "cidr_block n"
      by blast
    then show ?thesis
      using Contains_nil[of n] assms(2) by (simp add: passed_over_def)
  qed
  then have "list_all (\<lambda>r. list_all (passed_over lib h) (Patterns r)) (Rules p)"
    by (simp add: list_all_iff)
  then have "match_rules lib h (Rules p @ []) = match_rules lib h []"
    by (rule match_rules_skip)
  then have "MatchRule lib p h = Inl ErrNotFoundRule"
    by (simp add: MatchRule_def)
  with passed show ?thesis by blast
qed

theorem MatchRule_host_not_ip_witness:
  "MatchRule sample_net (profile_of [internal_rule, catch_all_rule]) ''example.com''
     = Inl ErrNotFoundRule \<and>
   passed_over sample_net ''example.com'' ''0.0.0.0/0''"
proof -
  let ?p = "profile_of [internal_rule, catch_all_rule]"
  have 1: "\<forall>rule \<in> set (Rules ?p). \<forall>ptn \<in> set (Patterns rule).
             \<exists>n. ParseCIDR sample_net ptn = Some n \<and> cidr_block n"
    by (simp add: profile_of_def internal_rule_def catch_all_rule_def sample_net_def
          cidr_block_def IPv4len_def)
  have 2: "ParseIP sample_net ''example.com'' = []"
    by (simp add: sample_net_def)
  have 3: "catch_all_rule \<in> set (Rules ?p)" "''0.0.0.0/0'' \<in> set (Patterns catch_all_rule)"
    by (simp_all add: profile_of_def catch_all_rule_def)
  show ?thesis
    using MatchRule_host_not_ip[OF 1 2] 3 by blast
qed

subsection \<open>The handler\<close>

text \<open>
  C9: when the scheme of the request target is neither http nor https, the handler (of
  either file) logs, answers the client with status 400 and returns: the trace has
  those two actions after the first log line and nothing else, so no host extraction,
  no rule matching and no outbound request.
\<close>

theorem proxyHandler_unsupported_scheme:
  assumes "URL_Scheme req \<noteq> ''http''" and "URL_Scheme req \<noteq> ''https''"
  shows "proxyHandler w profile wr_Header req =
           [Logged ''remoteAddr: %v, Method: %v, URL: %v'',
            Logged (''unsupported protocal scheme '' @ URL_Scheme req),
            Http_Error (''unsupported protocal scheme '' @ URL_Scheme req) 400] \<and>
         proxyHandler_part_001 w profile wr_Header req =
           [Logged ''remoteAddr: %v, Method: %v, URL: %v'',
            Http_Error (''unsupported protocal scheme '' @ URL_Scheme req) 400,
            Logged (''unsupported protocal scheme '' @ URL_Scheme req)] \<and>
         filter pipeline_call (proxyHandler w profile wr_Header req) = [] \<and>
         filter pipeline_call (proxyHandler_part_001 w profile wr_Header req) = []"
  using assms
  by (simp add: proxyHandler_def proxyHandler_part_001_def StatusBadRequest_def Let_def)

theorem proxyHandler_unsupported_scheme_witness:
  "proxyHandler sample_world (profile_of [internal_rule]) Map.empty
     (request_to ''ftp'' ''10.1.2.3:21'') =
     [Logged ''remoteAddr: %v, Method: %v, URL: %v'',
      Logged ''unsupported protocal scheme ftp'',
      Http_Error ''unsupported protocal scheme ftp'' 400]"
proof -
  have 1: "URL_Scheme (request_to ''ftp'' ''10.1.2.3:21'') \<noteq> ''http''"
    by (simp add: request_to_def)
  have 2: "URL_Scheme (request_to ''ftp'' ''10.1.2.3:21'') \<noteq> ''https''"
    by (simp add: request_to_def)
  have 3: "URL_Scheme (request_to ''ftp'' ''10.1.2.3:21'') = ''ftp''"
    by (simp add: request_to_def)
  show ?thesis
    using proxyHandler_unsupported_scheme
            [OF 1 2, of sample_world "profile_of [internal_rule]" Map.empty]
    by (simp add: 3)
qed

text \<open>
  When \<open>net.SplitHostPort\<close> fails on the authority of an http or https target, the
  handler of \<open>main.go\<close> logs, answers 500 and returns.
\<close>

lemma proxyHandler_split_failure:
  assumes "URL_Scheme req = ''http'' \<or> URL_Scheme req = ''https''"
    and "SplitHostPort w (URL_Host req) = Inl err"
  shows "proxyHandler w profile wr_Header req =
           [Logged ''remoteAddr: %v, Method: %v, URL: %v'',
            Called_SplitHostPort (URL_Host req),
            Logged ''failed to splitHostPort: %v'',
            Http_Error ''unexpected error'' 500]"
  using assms
  by (auto simp: proxyHandler_def StatusInternalServerError_def)

text \<open>
  The handler of the other file calls \<open>log.Fatalf\<close> there: the process exits, and the
  \<open>http.Error\<close> and the \<open>return\<close> written after it are never reached.
\<close>

lemma proxyHandler_part_001_split_failure:
  assumes "URL_Scheme req = ''http'' \<or> URL_Scheme req = ''https''"
    and "SplitHostPort w (URL_Host req) = Inl err"
  shows "proxyHandler_part_001 w profile wr_Header req =
           [Logged ''remoteAddr: %v, Method: %v, URL: %v'',
            Called_SplitHostPort (URL_Host req),
            Logged ''failed to splitHostPort: %v'',
            Process_Exit 1]"
  using assms
  by (auto simp: proxyHandler_part_001_def)

text \<open>The handler of \<open>main.go\<close> never ends the process.\<close>

lemma proxyHandler_never_exits: "Process_Exit n \<notin> set (proxyHandler w profile wr_Header req)"
  by (auto simp: proxyHandler_def Let_def split: sum.splits option.splits prod.splits if_splits)

text \<open>
  C5 does not hold of the second \<open>package main\<close> file. A proxy request for
  \<open>http://example.com/\<close> has the authority \<open>example.com\<close>, with no port, on which
  \<open>net.SplitHostPort\<close> fails: that handler logs through \<open>log.Fatalf\<close> and the process
  exits, with no answer to the client. The handler of \<open>main.go\<close> answers 500 on the
  same request.
\<close>

theorem proxyHandler_part_001_exits_on_missing_port:
  "proxyHandler_part_001 sample_world (profile_of [internal_rule]) Map.empty
     (request_to ''http'' ''example.com'') =
     [Logged ''remoteAddr: %v, Method: %v, URL: %v'',
      Called_SplitHostPort ''example.com'',
      Logged ''failed to splitHostPort: %v'',
      Process_Exit 1] \<and>
   proxyHandler sample_world (profile_of [internal_rule]) Map.empty
     (request_to ''http'' ''example.com'') =
     [Logged ''remoteAddr: %v, Method: %v, URL: %v'',
      Called_SplitHostPort ''example.com'',
      Logged ''failed to splitHostPort: %v'',
      Http_Error ''unexpected error'' 500]"
  by (simp add: proxyHandler_part_001_def proxyHandler_def sample_world_def request_to_def
        StatusInternalServerError_def)

end
